theory Spec2Isabelle
  imports Complex_Main "HOL-Library.Product_Lexorder"
begin

section \<open>Python values used by the scheduler\<close>

text \<open>
  The scheduler of \<^verbatim>\<open>streamlit_lab_scheduler.py\<close> works on rows of three tables
  (labs, tests, contracts).  A text of the program is a \<^typ>\<open>string\<close>; its characters are
  read as the code points below U+0100.  On these code points \<^verbatim>\<open>str.lower\<close> moves
  A-Z and the upper-case letters U+00C0..U+00DE (without the multiplication sign U+00D7)
  up by 32 and leaves all others alone, and \<^verbatim>\<open>str.strip\<close> removes the characters
  9-13, 28-32, 133 and 160 from both ends.
\<close>

definition is_space :: "char \<Rightarrow> bool" where
  "is_space c = (let n = (of_char c :: nat) in
     (9 \<le> n \<and> n \<le> 13) \<or> (28 \<le> n \<and> n \<le> 32) \<or> n = 133 \<or> n = 160)"

definition lower_char :: "char \<Rightarrow> char" where
  "lower_char c = (let n = (of_char c :: nat) in
     if (65 \<le> n \<and> n \<le> 90) \<or> (192 \<le> n \<and> n \<le> 222 \<and> n \<noteq> 215)
     then char_of (n + 32) else c)"

definition str_lower :: "string \<Rightarrow> string" where
  "str_lower s = map lower_char s"

definition str_strip :: "string \<Rightarrow> string" where
  "str_strip s = rev (dropWhile is_space (rev (dropWhile is_space s)))"

definition str_replace :: "char \<Rightarrow> char \<Rightarrow> string \<Rightarrow> string" where
  "str_replace old new s = map (\<lambda>c. if c = old then new else c) s"

text \<open>
  \<^verbatim>\<open>s.split(sep)\<close> for a separator of one character: every occurrence cuts, so the
  empty text gives one empty piece and \<^verbatim>\<open>"a,,b"\<close> gives three pieces.
\<close>

fun str_split :: "char \<Rightarrow> string \<Rightarrow> string list" where
  "str_split sep [] = [[]]"
| "str_split sep (c # cs) =
     (if c = sep then [] # str_split sep cs
      else (case str_split sep cs of
              [] \<Rightarrow> [[c]]
            | w # ws \<Rightarrow> (c # w) # ws))"

text \<open>
  A cell of a row read with \<^verbatim>\<open>row.get(key, default)\<close>: the column may be absent
  from the table (the default is taken), the cell may be empty (pandas reads it as NaN),
  or it holds a value.
\<close>

datatype 'a cell = Absent | NaN | Val 'a

datatype error = ValueError | OverflowError

text \<open>\<^verbatim>\<open>str(row.get(key, default))\<close>: the text of NaN is \<^verbatim>\<open>nan\<close>.\<close>

definition get_str :: "string \<Rightarrow> string cell \<Rightarrow> string" where
  "get_str dflt c = (case c of Absent \<Rightarrow> dflt | NaN \<Rightarrow> ''nan'' | Val s \<Rightarrow> s)"

text \<open>\<^verbatim>\<open>int(row.get(key, default))\<close>: \<^verbatim>\<open>int\<close> of NaN raises ValueError.\<close>

definition get_int :: "int \<Rightarrow> int cell \<Rightarrow> error + int" where
  "get_int dflt c = (case c of Absent \<Rightarrow> Inr dflt | NaN \<Rightarrow> Inl ValueError | Val n \<Rightarrow> Inr n)"

definition bind_err :: "error + 'a \<Rightarrow> ('a \<Rightarrow> error + 'b) \<Rightarrow> error + 'b" where
  "bind_err r f = (case r of Inl e \<Rightarrow> Inl e | Inr x \<Rightarrow> f x)"

text \<open>
  A Python float is a number or NaN.  \<^verbatim>\<open>float(row.get(key, np.nan))\<close> is NaN for an
  absent column and for an empty cell.  NaN is equal to nothing and less than nothing.
\<close>

datatype pyfloat = FNum rat | FNaN

definition get_float :: "rat cell \<Rightarrow> pyfloat" where
  "get_float c = (case c of Absent \<Rightarrow> FNaN | NaN \<Rightarrow> FNaN | Val p \<Rightarrow> FNum p)"

definition float_eq :: "pyfloat \<Rightarrow> pyfloat \<Rightarrow> bool" where
  "float_eq x y = (case (x, y) of (FNum a, FNum b) \<Rightarrow> a = b | _ \<Rightarrow> False)"

definition float_lt :: "pyfloat \<Rightarrow> pyfloat \<Rightarrow> bool" where
  "float_lt x y = (case (x, y) of (FNum a, FNum b) \<Rightarrow> a < b | _ \<Rightarrow> False)"

subsection \<open>Dates\<close>

text \<open>
  A \<^verbatim>\<open>datetime.date\<close> is its proleptic Gregorian ordinal (1 is 0001-01-01,
  3652059 is 9999-12-31).  Adding a \<^verbatim>\<open>timedelta\<close> raises OverflowError when the
  number of days exceeds 999999999 in magnitude or the result leaves the range of dates.
\<close>

type_synonym date = int

definition max_ordinal :: int where
  "max_ordinal = 3652059"

definition date_add :: "date \<Rightarrow> int \<Rightarrow> error + date" where
  "date_add d n =
     (if n < - 999999999 \<or> 999999999 < n then Inl OverflowError
      else if d + n < 1 \<or> max_ordinal < d + n then Inl OverflowError
      else Inr (d + n))"

text \<open>
  \<^verbatim>\<open>date.month\<close>, by the library's conversion from the ordinal: count the 400-, 100-,
  4- and 1-year cycles before the day, then estimate the month from the day of the year
  and correct the estimate with the table of the days before each month.
\<close>

definition days_before_month :: "int list" where
  "days_before_month = [- 1, 0, 31, 59, 90, 120, 151, 181, 212, 243, 273, 304, 334]"

definition month_of :: "date \<Rightarrow> int" where
  "month_of d =
     (let n = (d - 1) mod 146097;
          n100 = n div 36524; n = n mod 36524;
          n4 = n div 1461; n = n mod 1461;
          n1 = n div 365; n = n mod 365
      in if n1 = 4 \<or> n100 = 4 then 12
         else
           let leapyear = (n1 = 3 \<and> (n4 \<noteq> 24 \<or> n100 = 3));
               month = (n + 50) div 32;
               preceding = days_before_month ! nat month
                           + (if 2 < month \<and> leapyear then 1 else 0)
           in if n < preceding then month - 1 else month)"

section \<open>The scheduler\<close>

subsection \<open>Helpers\<close>

text \<open>
  \<^verbatim>\<open>parse_list_field(x)\<close>: an empty cell gives no token, a list is returned as it is,
  any other value is split at commas into its stripped, non-empty pieces.
\<close>

datatype field = Missing | Seq "string list" | Text string

definition parse_list_field :: "field \<Rightarrow> string list" where
  "parse_list_field x =
     (case x of
        Missing \<Rightarrow> []
      | Seq xs \<Rightarrow> xs
      | Text s \<Rightarrow> map str_strip (filter (\<lambda>p. str_strip p \<noteq> []) (str_split CHR '','' s)))"

definition months_to_season :: "int \<Rightarrow> string" where
  "months_to_season month =
     (if month \<in> set [12, 1, 2] then ''winter''
      else if month \<in> set [3, 4, 5] then ''spring''
      else if month \<in> set [6, 7, 8] then ''summer''
      else ''autumn'')"

text \<open>
  The two list comprehensions of \<^verbatim>\<open>schedule_for_contract\<close>: semicolons become
  commas, the text is split at commas, each piece is stripped and the empty ones are
  dropped.  The names of the required tests keep their case; the three fields of a lab
  are lower-cased.
\<close>

definition name_tokens :: "string \<Rightarrow> string list" where
  "name_tokens s =
     map str_strip (filter (\<lambda>t. str_strip t \<noteq> [])
       (str_split CHR '','' (str_replace CHR '';'' CHR '','' s)))"

definition lower_tokens :: "string \<Rightarrow> string list" where
  "lower_tokens s =
     map (\<lambda>t. str_lower (str_strip t)) (filter (\<lambda>t. str_strip t \<noteq> [])
       (str_split CHR '','' (str_replace CHR '';'' CHR '','' s)))"

subsection \<open>The tables\<close>

text \<open>
  The rows of the three tables, with the columns of the program's templates.  A text or
  whole-number column read with \<^verbatim>\<open>get\<close> is a cell; \<^verbatim>\<open>lab_id\<close>, \<^verbatim>\<open>name\<close> and
  \<^verbatim>\<open>test_name\<close> are read by index and are present.  A price that is a number is a
  rational (the rounding of floating-point addition is not part of the model).  The two
  dates of a contract have been converted to dates.
\<close>

record lab =
  lab_id :: int
  name :: string
  supported_tests :: "string cell"
  capacity_per_day :: "int cell"
  turnaround_days :: "int cell"
  storage_conditions_accepted :: "string cell"
  seasons_allowed :: "string cell"
  price_per_test :: "rat cell"

record test =
  test_id :: int
  test_name :: string
  duration_days :: "int cell"
  required_storage_condition :: "string cell"
  season_required :: "string cell"

record contract =
  contract_id :: int
  product_name :: string
  active_substance :: string
  required_tests :: "string cell"
  sample_collection_date :: date
  contract_deadline :: date
  max_storage_days :: "int cell"

text \<open>
  An assignment is a Python dict, here the list of its items in the order of the literal;
  the schedule is the list of these dicts from which the DataFrame is built.
\<close>

datatype pyval = VStr string | VInt int | VDate date | VFloat pyfloat

type_synonym assignment = "(string \<times> pyval) list"

text \<open>
  A candidate is the tuple
  \<^verbatim>\<open>(lab_id, name, est_start, est_finish, days_until_deadline, price)\<close>.
\<close>

type_synonym candidate = "int \<times> string \<times> date \<times> date \<times> int \<times> pyfloat"

definition cand_finish :: "candidate \<Rightarrow> date" where
  "cand_finish x = (case x of (i, nm, st, fin, dl, pr) \<Rightarrow> fin)"

definition cand_price :: "candidate \<Rightarrow> pyfloat" where
  "cand_price x = (case x of (i, nm, st, fin, dl, pr) \<Rightarrow> pr)"

subsection \<open>The loop over the labs\<close>

text \<open>
  For one test: every lab that is not skipped by one of the three \<^verbatim>\<open>continue\<close>
  statements is appended to the candidates, in the order of the table.
\<close>

fun candidates_loop ::
  "string \<Rightarrow> string \<Rightarrow> string \<Rightarrow> int \<Rightarrow> date \<Rightarrow> date \<Rightarrow> lab list \<Rightarrow> error + candidate list"
where
  "candidates_loop tn season req_storage duration day deadline [] = Inr []"
| "candidates_loop tn season req_storage duration day deadline (l # labs) =
     (let supported = lower_tokens (get_str '''' (supported_tests l)) in
      if str_lower tn \<notin> set supported
      then candidates_loop tn season req_storage duration day deadline labs
      else
        let lab_seasons = lower_tokens (get_str ''all'' (seasons_allowed l)) in
        if ''all'' \<notin> set lab_seasons \<and> season \<notin> set lab_seasons
        then candidates_loop tn season req_storage duration day deadline labs
        else
          let lab_storage = lower_tokens (get_str '''' (storage_conditions_accepted l)) in
          if req_storage \<noteq> [] \<and> str_lower req_storage \<notin> set (map str_lower lab_storage)
          then candidates_loop tn season req_storage duration day deadline labs
          else
            bind_err (get_int 0 (turnaround_days l)) (\<lambda>turnaround.
            bind_err (date_add day (duration + turnaround)) (\<lambda>est_finish.
            bind_err (candidates_loop tn season req_storage duration day deadline labs) (\<lambda>rest.
              Inr ((lab_id l, name l, day, est_finish, deadline - est_finish,
                    get_float (price_per_test l)) # rest)))))"

text \<open>
  The three tests of the loop, for one lab: the lab is appended when none of them sends
  the loop on to the next lab.
\<close>

definition passes_filter :: "string \<Rightarrow> string \<Rightarrow> string \<Rightarrow> lab \<Rightarrow> bool" where
  "passes_filter tn season req_storage l =
     (let supported = lower_tokens (get_str '''' (supported_tests l));
          lab_seasons = lower_tokens (get_str ''all'' (seasons_allowed l));
          lab_storage = lower_tokens (get_str '''' (storage_conditions_accepted l))
      in \<not> (str_lower tn \<notin> set supported)
         \<and> \<not> (''all'' \<notin> set lab_seasons \<and> season \<notin> set lab_seasons)
         \<and> \<not> (req_storage \<noteq> [] \<and> str_lower req_storage \<notin> set (map str_lower lab_storage)))"

subsection \<open>Sorting\<close>

text \<open>
  \<^verbatim>\<open>a < b\<close> on the keys \<^verbatim>\<open>(x[3], x[5])\<close>, a date and a float: tuples are compared at
  the first position where they are not equal, and are not less when there is none.
\<close>

definition key_lt :: "date \<times> pyfloat \<Rightarrow> date \<times> pyfloat \<Rightarrow> bool" where
  "key_lt a b =
     (case (a, b) of ((d1, p1), (d2, p2)) \<Rightarrow>
        if d1 \<noteq> d2 then d1 < d2
        else if float_eq p1 p2 then False
        else float_lt p1 p2)"

text \<open>
  \<^verbatim>\<open>sorted(xs, key=f)\<close>, as the list sort of CPython does it for fewer than 64 items,
  with no comparison but \<^verbatim>\<open><\<close> on the keys.  The run at the head of the list is
  found: it is descending when the second item is less than the first and goes on while
  each item is less than the one before it, and is ascending otherwise and goes on
  while no item is less than the one before it.  A descending run is reversed.  Every
  item after the run is then inserted into the sorted part at the place that a binary
  search gives.  When the keys hold no NaN this is the stable sort by the key for a list
  of any length; for 64 items and more with a NaN among the keys the merging of runs
  that the library does is not part of the model.
\<close>

fun run_asc :: "('a \<Rightarrow> 'a \<Rightarrow> bool) \<Rightarrow> 'a \<Rightarrow> 'a list \<Rightarrow> nat" where
  "run_asc lt prev [] = 0"
| "run_asc lt prev (x # xs) = (if lt x prev then 0 else Suc (run_asc lt x xs))"

fun run_desc :: "('a \<Rightarrow> 'a \<Rightarrow> bool) \<Rightarrow> 'a \<Rightarrow> 'a list \<Rightarrow> nat" where
  "run_desc lt prev [] = 0"
| "run_desc lt prev (x # xs) = (if lt x prev then Suc (run_desc lt x xs) else 0)"

fun count_run :: "('a \<Rightarrow> 'a \<Rightarrow> bool) \<Rightarrow> 'a list \<Rightarrow> nat \<times> bool" where
  "count_run lt [] = (0, False)"
| "count_run lt [x] = (1, False)"
| "count_run lt (x # y # ys) =
     (if lt y x then (2 + run_desc lt y ys, True) else (2 + run_asc lt y ys, False))"

function bisect :: "('a \<Rightarrow> 'a \<Rightarrow> bool) \<Rightarrow> 'a \<Rightarrow> 'a list \<Rightarrow> nat \<Rightarrow> nat \<Rightarrow> nat" where
  "bisect lt pivot xs l r =
     (if l < r
      then let p = l + (r - l) div 2
           in if lt pivot (xs ! p) then bisect lt pivot xs l p
              else bisect lt pivot xs (p + 1) r
      else l)"
  by pat_completeness auto
termination
  by (relation "measure (\<lambda>(lt, pivot, xs, l, r). r - l)") auto

declare bisect.simps [simp del]

definition insert_sorted :: "('a \<Rightarrow> 'a \<Rightarrow> bool) \<Rightarrow> 'a list \<Rightarrow> 'a \<Rightarrow> 'a list" where
  "insert_sorted lt xs pivot =
     (let l = bisect lt pivot xs 0 (length xs) in take l xs @ pivot # drop l xs)"

definition binarysort :: "('a \<Rightarrow> 'a \<Rightarrow> bool) \<Rightarrow> 'a list \<Rightarrow> 'a list \<Rightarrow> 'a list" where
  "binarysort lt run rest = foldl (insert_sorted lt) run rest"

definition py_sorted :: "('a \<Rightarrow> date \<times> pyfloat) \<Rightarrow> 'a list \<Rightarrow> 'a list" where
  "py_sorted key xs =
     (let lt = (\<lambda>a b. key_lt (key a) (key b));
          (n, descending) = count_run lt xs;
          run = (if descending then rev (take n xs) else take n xs)
      in binarysort lt run (drop n xs))"

subsection \<open>One required test\<close>

definition find_test :: "test list \<Rightarrow> string \<Rightarrow> test option" where
  "find_test tests tn = find (\<lambda>t. str_lower (test_name t) = str_lower tn) tests"

definition not_found :: "string \<Rightarrow> assignment" where
  "not_found tn = [(''test_name'', VStr tn), (''status'', VStr ''test not found in tests.xlsx'')]"

definition no_lab :: "string \<Rightarrow> assignment" where
  "no_lab tn = [(''test_name'', VStr tn), (''status'', VStr ''no suitable lab found'')]"

definition resolved :: "string \<Rightarrow> candidate \<Rightarrow> assignment" where
  "resolved tn chosen =
     (case chosen of (i, nm, st, fin, dl, pr) \<Rightarrow>
        [(''test_name'', VStr tn),
         (''lab_id'', VInt i),
         (''lab_name'', VStr nm),
         (''start_date'', VDate st),
         (''finish_date'', VDate fin),
         (''days_before_deadline'', VInt dl),
         (''price'', VFloat pr),
         (''status'', VStr (if 0 \<le> dl then ''scheduled'' else ''will miss deadline''))])"

text \<open>
  The body of the loop over the required tests.  It returns the assignment it appends
  and the value of \<^verbatim>\<open>day_of_sample\<close> after the iteration.  (\<^verbatim>\<open>season_required\<close> is
  read and never used.)
\<close>

definition schedule_step ::
  "string \<Rightarrow> date \<Rightarrow> lab list \<Rightarrow> test list \<Rightarrow> date \<Rightarrow> string \<Rightarrow> error + (assignment \<times> date)"
where
  "schedule_step season deadline labs tests day tn =
     (case find_test tests tn of
        None \<Rightarrow> Inr (not_found tn, day)
      | Some test_row \<Rightarrow>
          bind_err (get_int 1 (duration_days test_row)) (\<lambda>duration.
            let req_storage = get_str '''' (required_storage_condition test_row) in
            bind_err (candidates_loop tn season req_storage duration day deadline labs)
              (\<lambda>candidates.
                 if candidates = [] then Inr (no_lab tn, day)
                 else
                   let candidates_sorted =
                         py_sorted (\<lambda>x. (cand_finish x, cand_price x)) candidates;
                       chosen = hd candidates_sorted
                   in Inr (resolved tn chosen, cand_finish chosen))))"

subsection \<open>The loop over the required tests\<close>

text \<open>
  The loop records, beside every assignment, the value that \<^verbatim>\<open>day_of_sample\<close> had
  when the iteration began: the timeline value used for that assignment.  The schedule
  that \<^verbatim>\<open>schedule_for_contract\<close> returns is the list of the assignments alone.
\<close>

fun schedule_loop ::
  "string \<Rightarrow> date \<Rightarrow> lab list \<Rightarrow> test list \<Rightarrow> date \<Rightarrow> string list
     \<Rightarrow> error + (date \<times> assignment) list"
where
  "schedule_loop season deadline labs tests day [] = Inr []"
| "schedule_loop season deadline labs tests day (tn # tns) =
     bind_err (schedule_step season deadline labs tests day tn) (\<lambda>(a, day').
     bind_err (schedule_loop season deadline labs tests day' tns) (\<lambda>rest.
       Inr ((day, a) # rest)))"

definition required_names :: "contract \<Rightarrow> string list" where
  "required_names c = name_tokens (get_str '''' (required_tests c))"

definition contract_season :: "contract \<Rightarrow> string" where
  "contract_season c = months_to_season (month_of (sample_collection_date c))"

definition schedule_trace ::
  "contract \<Rightarrow> lab list \<Rightarrow> test list \<Rightarrow> error + (date \<times> assignment) list"
where
  "schedule_trace c labs tests =
     (let required = required_names c;
          sample_date = sample_collection_date c;
          deadline = contract_deadline c
      in bind_err (get_int 30 (max_storage_days c)) (\<lambda>max_storage.
           let day_of_sample = sample_date;
               season = months_to_season (month_of day_of_sample)
           in schedule_loop season deadline labs tests day_of_sample required))"

definition schedule_for_contract ::
  "contract \<Rightarrow> lab list \<Rightarrow> test list \<Rightarrow> error + assignment list"
where
  "schedule_for_contract c labs tests =
     bind_err (schedule_trace c labs tests) (\<lambda>tr. Inr (map snd tr))"

subsection \<open>Summary\<close>

text \<open>
  The columns of the DataFrame are the keys of all its rows; a row that lacks a key has
  an empty cell in that column.  A comparison of the status column with a text selects
  the rows whose status is that text.  The sum of a column skips the cells that hold no
  number and is 0 when nothing is left.
\<close>

definition columns :: "assignment list \<Rightarrow> string list" where
  "columns sch = remdups (concat (map (map fst) sch))"

definition status_is :: "string \<Rightarrow> assignment \<Rightarrow> bool" where
  "status_is s a = (map_of a ''status'' = Some (VStr s))"

definition column_of :: "string \<Rightarrow> assignment list \<Rightarrow> pyval option list" where
  "column_of k rows = map (\<lambda>a. map_of a k) rows"

fun sum_skipna :: "pyval option list \<Rightarrow> rat" where
  "sum_skipna [] = 0"
| "sum_skipna (Some (VFloat (FNum p)) # vs) = p + sum_skipna vs"
| "sum_skipna (v # vs) = sum_skipna vs"

definition total_cost :: "assignment list \<Rightarrow> rat" where
  "total_cost sch =
     (if ''price'' \<in> set (columns sch)
      then sum_skipna (column_of ''price'' (filter (status_is ''scheduled'') sch))
      else 0)"

definition missed :: "assignment list \<Rightarrow> nat" where
  "missed sch =
     (if ''status'' \<in> set (columns sch)
      then length (filter (status_is ''will miss deadline'') sch)
      else 0)"

subsection \<open>The sample tables of the program\<close>

definition sample_labs :: "lab list" where
  "sample_labs =
     [\<lparr>lab_id = 1, name = ''Lab A'', supported_tests = Val ''Residue, Purity'',
       capacity_per_day = Val 10, turnaround_days = Val 7,
       storage_conditions_accepted = Val ''+4C, -20C'', seasons_allowed = Val ''all'',
       price_per_test = Val 120\<rparr>,
      \<lparr>lab_id = 2, name = ''Lab B'', supported_tests = Val ''Residue'',
       capacity_per_day = Val 5, turnaround_days = Val 14,
       storage_conditions_accepted = Val ''+4C'', seasons_allowed = Val ''summer,autumn'',
       price_per_test = Val 100\<rparr>]"

definition sample_tests :: "test list" where
  "sample_tests =
     [\<lparr>test_id = 1, test_name = ''Residue'', duration_days = Val 3,
       required_storage_condition = Val ''+4C'', season_required = Val ''''\<rparr>,
      \<lparr>test_id = 2, test_name = ''Purity'', duration_days = Val 2,
       required_storage_condition = Val ''room'', season_required = Val ''''\<rparr>]"

text \<open>
  The sample contract, sampled on 2024-01-10 (ordinal 738895) with the deadline thirty
  days later.
\<close>

definition sample_contract :: contract where
  "sample_contract =
     \<lparr>contract_id = 1, product_name = ''X'', active_substance = ''DV1'',
      required_tests = Val ''Residue;Purity'', sample_collection_date = 738895,
      contract_deadline = 738925, max_storage_days = Val 14\<rparr>"

section \<open>The specification's notions\<close>

text \<open>
  The field list parser in the words of the specification: the text is cut at every
  comma and at every semicolon, each piece is trimmed and case-normalised, and the empty
  pieces are dropped (so that the empty text has no token).
\<close>

fun split_any :: "(char \<Rightarrow> bool) \<Rightarrow> string \<Rightarrow> string list" where
  "split_any P [] = [[]]"
| "split_any P (c # cs) =
     (if P c then [] # split_any P cs
      else (case split_any P cs of [] \<Rightarrow> [[c]] | w # ws \<Rightarrow> (c # w) # ws))"

definition is_separator :: "char \<Rightarrow> bool" where
  "is_separator c = (c = CHR '','' \<or> c = CHR '';'')"

definition spec_pieces :: "string \<Rightarrow> string list" where
  "spec_pieces s = filter (\<lambda>p. p \<noteq> []) (map str_strip (split_any is_separator s))"

definition spec_field_set :: "string \<Rightarrow> string set" where
  "spec_field_set s = set (map str_lower (spec_pieces s))"

text \<open>
  The text of a cell as the specification reads it: a missing or empty cell is the empty
  text (it has no token, and as a storage condition it is no constraint).  The
  specification is silent on a table that lacks the column; there the default of the
  program is taken.
\<close>

definition spec_text :: "string \<Rightarrow> string cell \<Rightarrow> string" where
  "spec_text dflt c = (case c of Absent \<Rightarrow> dflt | NaN \<Rightarrow> [] | Val s \<Rightarrow> s)"

text \<open>
  Eligibility in the words of the specification.  A lab's field contains a name when one
  of its trimmed tokens equals the name up to case.
\<close>

definition eq_ignoring_case :: "string \<Rightarrow> string \<Rightarrow> bool" where
  "eq_ignoring_case a b = (str_lower a = str_lower b)"

definition Eligible :: "test \<Rightarrow> lab \<Rightarrow> string \<Rightarrow> bool" where
  "Eligible t l season =
     ((\<exists>s \<in> set (spec_pieces (spec_text '''' (supported_tests l))). eq_ignoring_case s (test_name t))
      \<and> (''all'' \<in> spec_field_set (spec_text ''all'' (seasons_allowed l))
           \<or> season \<in> spec_field_set (spec_text ''all'' (seasons_allowed l)))
      \<and> (spec_text '''' (required_storage_condition t) = []
           \<or> (\<exists>s \<in> set (spec_pieces (spec_text '''' (storage_conditions_accepted l))).
                 eq_ignoring_case s (spec_text '''' (required_storage_condition t)))))"

text \<open>
  The rows on which the program and the specification read the same texts: none of the
  four cells of the filter is empty.
\<close>

definition cells_filled :: "test \<Rightarrow> lab \<Rightarrow> bool" where
  "cells_filled t l =
     (supported_tests l \<noteq> NaN \<and> seasons_allowed l \<noteq> NaN
      \<and> storage_conditions_accepted l \<noteq> NaN \<and> required_storage_condition t \<noteq> NaN)"

text \<open>
  An assignment resolved to a lab when its status is "scheduled" or "will miss deadline".
\<close>

definition is_resolved :: "assignment \<Rightarrow> bool" where
  "is_resolved a = (status_is ''scheduled'' a \<or> status_is ''will miss deadline'' a)"

subsection \<open>Example contracts\<close>

text \<open>
  A contract that names a test twice, in two spellings, around a name that is not in the
  table of tests, with the run of the scheduler on it; a contract sampled in summer
  (2024-07-10), when both sample labs are open; a lab that is open in winter only, and a
  contract sampled on 2024-02-20 whose second test starts on 2024-03-01.
\<close>

definition example_contract :: contract where
  "example_contract = sample_contract\<lparr>required_tests := Val ''Residue; Nope; residue''\<rparr>"

definition example_trace :: "(date \<times> assignment) list" where
  "example_trace =
     [(738895, resolved ''Residue'' (1, ''Lab A'', 738895, 738905, 20, FNum 120)),
      (738905, not_found ''Nope''),
      (738905, resolved ''residue'' (1, ''Lab A'', 738905, 738915, 10, FNum 120))]"

definition summer_contract :: contract where
  "summer_contract = sample_contract\<lparr>required_tests := Val ''Residue'',
     sample_collection_date := 739077, contract_deadline := 739090\<rparr>"

definition winter_labs :: "lab list" where
  "winter_labs =
     [\<lparr>lab_id = 3, name = ''Lab W'', supported_tests = Val ''Residue'',
       capacity_per_day = Val 1, turnaround_days = Val 7,
       storage_conditions_accepted = Val ''+4C'', seasons_allowed = Val ''winter'',
       price_per_test = Val 90\<rparr>]"

definition late_winter_contract :: contract where
  "late_winter_contract = sample_contract\<lparr>required_tests := Val ''Residue, Residue'',
     sample_collection_date := 738936, contract_deadline := 738950\<rparr>"

definition late_winter_trace :: "(date \<times> assignment) list" where
  "late_winter_trace =
     [(738936, resolved ''Residue'' (3, ''Lab W'', 738936, 738946, 4, FNum 90)),
      (738946, resolved ''Residue'' (3, ''Lab W'', 738946, 738956, - 6, FNum 90))]"

text \<open>
  A table of tests whose storage condition cell is empty, and three labs that differ in
  their price only, the second with an empty price cell.
\<close>

definition blank_storage_tests :: "test list" where
  "blank_storage_tests =
     [\<lparr>test_id = 1, test_name = ''Residue'', duration_days = Val 3,
       required_storage_condition = NaN, season_required = NaN\<rparr>]"

definition unpriced_labs :: "lab list" where
  "unpriced_labs =
     [\<lparr>lab_id = 1, name = ''Lab P'', supported_tests = Val ''Residue'',
       capacity_per_day = Val 5, turnaround_days = Val 7,
       storage_conditions_accepted = Val ''+4C'', seasons_allowed = Val ''all'',
       price_per_test = Val 100\<rparr>,
      \<lparr>lab_id = 2, name = ''Lab Q'', supported_tests = Val ''Residue'',
       capacity_per_day = Val 5, turnaround_days = Val 7,
       storage_conditions_accepted = Val ''+4C'', seasons_allowed = Val ''all'',
       price_per_test = NaN\<rparr>,
      \<lparr>lab_id = 3, name = ''Lab R'', supported_tests = Val ''Residue'',
       capacity_per_day = Val 5, turnaround_days = Val 7,
       storage_conditions_accepted = Val ''+4C'', seasons_allowed = Val ''all'',
       price_per_test = Val 50\<rparr>]"

subsection \<open>Inputs on which the scheduler returns\<close>

text \<open>
  A bound \<open>b\<close> on the tables and the contract: no whole-number cell that the scheduler
  reads is empty, every duration and every turnaround lies between 0 and \<open>b\<close>, and the
  dates from the sample collection date on leave room for \<open>2 * b\<close> days for each required
  test.
\<close>

definition days_within :: "int \<Rightarrow> lab list \<Rightarrow> test list \<Rightarrow> bool" where
  "days_within b labs tests =
     (list_all (\<lambda>t. case get_int 1 (duration_days t) of Inl e \<Rightarrow> False | Inr d \<Rightarrow> 0 \<le> d \<and> d \<le> b) tests
      \<and> list_all (\<lambda>l. case get_int 0 (turnaround_days l) of Inl e \<Rightarrow> False | Inr ta \<Rightarrow> 0 \<le> ta \<and> ta \<le> b) labs)"

definition within_bounds :: "int \<Rightarrow> contract \<Rightarrow> lab list \<Rightarrow> test list \<Rightarrow> bool" where
  "within_bounds b c labs tests =
     (max_storage_days c \<noteq> NaN \<and> days_within b labs tests \<and> 0 \<le> b \<and> 2 * b \<le> 999999999
      \<and> 1 \<le> sample_collection_date c
      \<and> sample_collection_date c + int (length (required_names c)) * (2 * b) \<le> max_ordinal)"

section \<open>Basic facts\<close>

lemma lower_char_idem: "lower_char (lower_char c) = lower_char c"
  by (auto simp: lower_char_def Let_def)

lemma str_lower_idem: "str_lower (str_lower s) = str_lower s"
  by (simp add: str_lower_def lower_char_idem)

lemma str_lower_Nil_iff: "str_lower s = [] \<longleftrightarrow> s = []"
  by (simp add: str_lower_def)

lemma split_replace:
  "str_split sep (str_replace old sep s) = split_any (\<lambda>c. c = sep \<or> c = old) s"
  by (induction s) (auto simp: str_replace_def)

lemma split_semicolon_comma:
  "str_split CHR '','' (str_replace CHR '';'' CHR '','' s) = split_any is_separator s"
proof -
  have "is_separator = (\<lambda>c. c = CHR '','' \<or> c = CHR '';'')"
    by (rule ext) (simp add: is_separator_def)
  then show ?thesis
    by (simp add: split_replace)
qed

lemma map_filter_strip:
  "map str_strip (filter (\<lambda>t. str_strip t \<noteq> []) ps) = filter (\<lambda>p. p \<noteq> []) (map str_strip ps)"
  by (induction ps) auto

lemma name_tokens_pieces: "name_tokens s = spec_pieces s"
  by (simp add: name_tokens_def spec_pieces_def split_semicolon_comma map_filter_strip)

lemma lower_tokens_name: "lower_tokens s = map str_lower (name_tokens s)"
  by (simp add: lower_tokens_def name_tokens_def)

lemma set_lower_tokens: "set (lower_tokens s) = spec_field_set s"
  by (simp add: lower_tokens_name name_tokens_pieces spec_field_set_def)

lemma bind_err_Inr: "bind_err r f = Inr y \<longleftrightarrow> (\<exists>x. r = Inr x \<and> f x = Inr y)"
  by (cases r) (auto simp: bind_err_def)

lemma sum_list_filter_indices:
  fixes f :: "'a \<Rightarrow> rat"
  shows "sum_list (map f (filter P xs)) = (\<Sum>i \<in> {i. i < length xs \<and> P (xs ! i)}. f (xs ! i))"
proof -
  have "sum_list (map f (filter P xs)) = sum_list (map (\<lambda>x. if P x then f x else 0) xs)"
    by (rule sum_list_map_filter')
  also have "\<dots> = (\<Sum>i = 0..<length xs. if P (xs ! i) then f (xs ! i) else 0)"
    by (simp add: sum_list_sum_nth)
  also have "\<dots> = (\<Sum>i \<in> {i \<in> {0..<length xs}. P (xs ! i)}. f (xs ! i))"
    by (rule sum.inter_filter [symmetric]) simp
  also have "{i \<in> {0..<length xs}. P (xs ! i)} = {i. i < length xs \<and> P (xs ! i)}"
    by auto
  finally show ?thesis .
qed

lemma sum_skipna_column:
  "sum_skipna (column_of k rows)
     = sum_list (map (\<lambda>a. case map_of a k of Some (VFloat (FNum p)) \<Rightarrow> p | _ \<Rightarrow> 0) rows)"
proof (induction rows)
  case Nil
  then show ?case by (simp add: column_of_def)
next
  case (Cons a rows)
  then have ih: "sum_skipna (map (\<lambda>a. map_of a k) rows)
      = sum_list (map (\<lambda>a. case map_of a k of Some (VFloat (FNum p)) \<Rightarrow> p | _ \<Rightarrow> 0) rows)"
    by (simp add: column_of_def)
  show ?case
  proof (cases "map_of a k")
    case None
    with ih show ?thesis by (simp add: column_of_def)
  next
    case (Some v)
    show ?thesis
    proof (cases v)
      case (VFloat x)
      with Some ih show ?thesis by (cases x) (simp_all add: column_of_def)
    qed (use Some ih in \<open>simp_all add: column_of_def\<close>)
  qed
qed

lemma no_column_no_key:
  assumes "k \<notin> set (columns sch)" and "a \<in> set sch"
  shows "map_of a k = None"
proof -
  from assms have "k \<notin> fst ` set a"
    by (auto simp: columns_def)
  then show ?thesis
    by (simp add: map_of_eq_None_iff)
qed

lemma find_test_Some:
  "find_test tests tn = Some t \<Longrightarrow> t \<in> set tests \<and> str_lower (test_name t) = str_lower tn"
  by (auto simp: find_test_def find_Some_iff)

lemma find_test_None:
  "find_test tests tn = None \<longleftrightarrow> (\<forall>t \<in> set tests. str_lower (test_name t) \<noteq> str_lower tn)"
  by (auto simp: find_test_def find_None_iff)

lemma spec_text_filled: "c \<noteq> NaN \<Longrightarrow> spec_text dflt c = get_str dflt c"
  by (cases c) (simp_all add: spec_text_def get_str_def)

lemma passes_filter_Eligible:
  assumes "str_lower (test_name t) = str_lower tn" and "cells_filled t l"
  shows "passes_filter tn season (get_str '''' (required_storage_condition t)) l
         \<longleftrightarrow> Eligible t l season"
proof -
  have a: "(\<exists>s \<in> set (spec_pieces x). eq_ignoring_case s y) \<longleftrightarrow> str_lower y \<in> set (lower_tokens x)" for x y
  proof -
    have "str_lower y \<in> set (lower_tokens x) \<longleftrightarrow> (\<exists>s \<in> set (spec_pieces x). str_lower y = str_lower s)"
      by (simp add: lower_tokens_name name_tokens_pieces image_iff)
    also have "\<dots> \<longleftrightarrow> (\<exists>s \<in> set (spec_pieces x). eq_ignoring_case s y)"
      unfolding eq_ignoring_case_def by (rule bex_cong) auto
    finally show ?thesis ..
  qed
  have b: "map str_lower (lower_tokens x) = lower_tokens x" for x
    by (simp add: lower_tokens_name str_lower_idem)
  from assms(2) have c: "spec_text '''' (supported_tests l) = get_str '''' (supported_tests l)"
    "spec_text ''all'' (seasons_allowed l) = get_str ''all'' (seasons_allowed l)"
    "spec_text '''' (storage_conditions_accepted l) = get_str '''' (storage_conditions_accepted l)"
    "spec_text '''' (required_storage_condition t) = get_str '''' (required_storage_condition t)"
    by (simp_all add: cells_filled_def spec_text_filled)
  show ?thesis
    unfolding Eligible_def passes_filter_def Let_def a b c set_lower_tokens [symmetric] assms(1)
    by blast
qed

lemma date_add_Inr: "date_add d n = Inr f \<Longrightarrow> f = d + n"
  by (auto simp: date_add_def split: if_splits)

lemma candidates_loop_Inr:
  assumes "candidates_loop tn season req d day deadline labs = Inr cs"
  shows "list_all2 (\<lambda>c l. \<exists>ta. get_int 0 (turnaround_days l) = Inr ta
            \<and> date_add day (d + ta) = Inr (day + (d + ta))
            \<and> c = (lab_id l, name l, day, day + (d + ta), deadline - (day + (d + ta)),
                   get_float (price_per_test l)))
          cs (filter (passes_filter tn season req) labs)"
  using assms
proof (induction labs arbitrary: cs)
  case Nil
  then show ?case by simp
next
  case (Cons l labs)
  show ?case
  proof (cases "passes_filter tn season req l")
    case False
    with Cons.prems have "candidates_loop tn season req d day deadline labs = Inr cs"
      by (auto simp: passes_filter_def Let_def split: if_splits)
    with Cons.IH False show ?thesis by simp
  next
    case True
    with Cons.prems obtain ta f rest where
      ta: "get_int 0 (turnaround_days l) = Inr ta" and f: "date_add day (d + ta) = Inr f"
      and rest: "candidates_loop tn season req d day deadline labs = Inr rest"
      and cs: "cs = (lab_id l, name l, day, f, deadline - f, get_float (price_per_test l)) # rest"
      by (auto simp: passes_filter_def Let_def bind_err_Inr split: if_splits)
    from f have "f = day + (d + ta)" by (rule date_add_Inr)
    with ta f cs Cons.IH [OF rest] True show ?thesis
      by simp
  qed
qed

lemma candidates_loop_single:
  "candidates_loop tn season req d day deadline [l] \<noteq> Inr [] \<longleftrightarrow> passes_filter tn season req l"
  by (auto simp: passes_filter_def Let_def bind_err_def split: sum.splits)

lemma set_insert_sorted: "set (insert_sorted lt xs pivot) = insert pivot (set xs)"
proof -
  have "set (take n xs) \<union> set (drop n xs) = set xs" for n
    by (metis append_take_drop_id set_append)
  then show ?thesis
    by (auto simp: insert_sorted_def Let_def)
qed

lemma set_binarysort: "set (binarysort lt run rest) = set run \<union> set rest"
  unfolding binarysort_def
  by (induction rest arbitrary: run) (auto simp: set_insert_sorted)

lemma set_py_sorted: "set (py_sorted key xs) = set xs"
proof -
  obtain n descending where run: "count_run (\<lambda>a b. key_lt (key a) (key b)) xs = (n, descending)"
    by (cases "count_run (\<lambda>a b. key_lt (key a) (key b)) xs") auto
  have "set (take n xs) \<union> set (drop n xs) = set xs"
    by (metis append_take_drop_id set_append)
  with run show ?thesis
    by (simp add: py_sorted_def Let_def set_binarysort)
qed

lemma hd_py_sorted: "cs \<noteq> [] \<Longrightarrow> hd (py_sorted key cs) \<in> set cs"
proof -
  assume "cs \<noteq> []"
  then have "set (py_sorted key cs) \<noteq> {}"
    by (simp add: set_py_sorted)
  then have "py_sorted key cs \<noteq> []"
    by auto
  then have "hd (py_sorted key cs) \<in> set (py_sorted key cs)"
    by simp
  then show ?thesis
    by (simp add: set_py_sorted)
qed

lemma list_all2_left: "list_all2 P xs ys \<Longrightarrow> x \<in> set xs \<Longrightarrow> \<exists>y \<in> set ys. P x y"
  by (induction rule: list_all2_induct) auto

lemma list_all2_right: "list_all2 P xs ys \<Longrightarrow> y \<in> set ys \<Longrightarrow> \<exists>x \<in> set xs. P x y"
  by (induction rule: list_all2_induct) auto

lemma not_found_unresolved: "\<not> is_resolved (not_found tn)"
  by (simp add: is_resolved_def status_is_def not_found_def)

lemma no_lab_unresolved: "\<not> is_resolved (no_lab tn)"
  by (simp add: is_resolved_def status_is_def no_lab_def)

lemma resolved_is_resolved: "is_resolved (resolved tn x)"
  by (cases x) (simp add: is_resolved_def status_is_def resolved_def)

lemma resolved_fields:
  "map_of (resolved tn (i, nm, st, fin, dl, pr)) ''test_name'' = Some (VStr tn)"
  "map_of (resolved tn (i, nm, st, fin, dl, pr)) ''lab_id'' = Some (VInt i)"
  "map_of (resolved tn (i, nm, st, fin, dl, pr)) ''lab_name'' = Some (VStr nm)"
  "map_of (resolved tn (i, nm, st, fin, dl, pr)) ''start_date'' = Some (VDate st)"
  "map_of (resolved tn (i, nm, st, fin, dl, pr)) ''finish_date'' = Some (VDate fin)"
  "map_of (resolved tn (i, nm, st, fin, dl, pr)) ''days_before_deadline'' = Some (VInt dl)"
  "map_of (resolved tn (i, nm, st, fin, dl, pr)) ''price'' = Some (VFloat pr)"
  "map_of (resolved tn (i, nm, st, fin, dl, pr)) ''status''
     = Some (VStr (if 0 \<le> dl then ''scheduled'' else ''will miss deadline''))"
  by (simp_all add: resolved_def)

lemma schedule_step_cases:
  assumes "schedule_step season deadline labs tests day tn = Inr (a, day')"
  obtains
    (absent) "find_test tests tn = None" "a = not_found tn" "day' = day"
  | (nolab) t d where "find_test tests tn = Some t" "get_int 1 (duration_days t) = Inr d"
      "candidates_loop tn season (get_str '''' (required_storage_condition t)) d day deadline labs = Inr []"
      "a = no_lab tn" "day' = day"
  | (chosen) t d cs where "find_test tests tn = Some t" "get_int 1 (duration_days t) = Inr d"
      "candidates_loop tn season (get_str '''' (required_storage_condition t)) d day deadline labs = Inr cs"
      "cs \<noteq> []"
      "a = resolved tn (hd (py_sorted (\<lambda>x. (cand_finish x, cand_price x)) cs))"
      "day' = cand_finish (hd (py_sorted (\<lambda>x. (cand_finish x, cand_price x)) cs))"
proof (cases "find_test tests tn")
  case None
  with assms absent show ?thesis
    by (simp add: schedule_step_def)
next
  case (Some t)
  with assms obtain d cs where d: "get_int 1 (duration_days t) = Inr d"
    and cs: "candidates_loop tn season (get_str '''' (required_storage_condition t)) d day deadline labs = Inr cs"
    and r: "cs = [] \<longrightarrow> a = no_lab tn \<and> day' = day"
      "cs \<noteq> [] \<longrightarrow> a = resolved tn (hd (py_sorted (\<lambda>x. (cand_finish x, cand_price x)) cs))
          \<and> day' = cand_finish (hd (py_sorted (\<lambda>x. (cand_finish x, cand_price x)) cs))"
    by (auto simp: schedule_step_def bind_err_Inr Let_def split: if_splits)
  show ?thesis
  proof (cases "cs = []")
    case True
    with r Some d cs nolab show ?thesis by simp
  next
    case False
    with r Some d cs chosen show ?thesis by simp
  qed
qed

text \<open>The chosen candidate, in terms of the labs.\<close>

lemma chosen_candidate:
  assumes cs: "candidates_loop tn season req d day deadline labs = Inr cs"
    and ne: "cs \<noteq> []"
  shows "\<exists>l ta. l \<in> set labs \<and> passes_filter tn season req l
           \<and> get_int 0 (turnaround_days l) = Inr ta
           \<and> hd (py_sorted (\<lambda>x. (cand_finish x, cand_price x)) cs)
               = (lab_id l, name l, day, day + (d + ta), deadline - (day + (d + ta)),
                  get_float (price_per_test l))"
proof -
  let ?P = "\<lambda>c l. \<exists>ta. get_int 0 (turnaround_days l) = Inr ta
            \<and> date_add day (d + ta) = Inr (day + (d + ta))
            \<and> c = (lab_id l, name l, day, day + (d + ta), deadline - (day + (d + ta)),
                   get_float (price_per_test l))"
  let ?ch = "hd (py_sorted (\<lambda>x. (cand_finish x, cand_price x)) cs)"
  have all2: "list_all2 ?P cs (filter (passes_filter tn season req) labs)"
    using candidates_loop_Inr [OF cs] .
  have "?ch \<in> set cs"
    using hd_py_sorted [OF ne] .
  with list_all2_left [OF all2] obtain l where
    "l \<in> set (filter (passes_filter tn season req) labs)" and "?P ?ch l"
    by blast
  then show ?thesis
    by auto
qed

lemma schedule_loop_length:
  "schedule_loop season deadline labs tests day tns = Inr tr \<Longrightarrow> length tr = length tns"
proof (induction tns arbitrary: day tr)
  case Nil
  then show ?case by simp
next
  case (Cons tn tns)
  then show ?case
    by (auto simp: bind_err_Inr)
qed

lemma schedule_loop_hd:
  "schedule_loop season deadline labs tests day tns = Inr tr \<Longrightarrow> tr \<noteq> [] \<Longrightarrow> fst (hd tr) = day"
  by (cases tns) (auto simp: bind_err_Inr)

lemma schedule_loop_nth:
  assumes "schedule_loop season deadline labs tests day tns = Inr tr" and "i < length tr"
  shows "\<exists>day'. schedule_step season deadline labs tests (fst (tr ! i)) (tns ! i) = Inr (snd (tr ! i), day')
           \<and> (Suc i < length tr \<longrightarrow> fst (tr ! Suc i) = day')"
  using assms
proof (induction tns arbitrary: day tr i)
  case Nil
  then show ?case by simp
next
  case (Cons tn tns)
  from Cons.prems(1) obtain a day' rest where
    step: "schedule_step season deadline labs tests day tn = Inr (a, day')"
    and rest: "schedule_loop season deadline labs tests day' tns = Inr rest"
    and tr: "tr = (day, a) # rest"
    by (auto simp: bind_err_Inr)
  show ?case
  proof (cases i)
    case 0
    have "rest \<noteq> [] \<Longrightarrow> fst (rest ! 0) = day'"
      using schedule_loop_hd [OF rest] by (simp add: hd_conv_nth)
    with 0 step tr show ?thesis
      by auto
  next
    case (Suc j)
    with Cons.prems(2) tr have "j < length rest" by simp
    from Cons.IH [OF rest this] Suc tr show ?thesis
      by simp
  qed
qed

lemma schedule_trace_loop:
  "schedule_trace c labs tests = Inr tr \<Longrightarrow>
     schedule_loop (contract_season c) (contract_deadline c) labs tests
       (sample_collection_date c) (required_names c) = Inr tr"
  by (auto simp: schedule_trace_def contract_season_def Let_def bind_err_Inr)

lemma schedule_for_contract_trace:
  "schedule_for_contract c labs tests = Inr sch \<longleftrightarrow>
     (\<exists>tr. schedule_trace c labs tests = Inr tr \<and> sch = map snd tr)"
  by (auto simp: schedule_for_contract_def bind_err_Inr)

lemma example_trace_run: "schedule_trace example_contract sample_labs sample_tests = Inr example_trace"
  by code_simp

lemma schedule_step_test_name:
  assumes "schedule_step season deadline labs tests day tn = Inr (a, day')"
  shows "map_of a ''test_name'' = Some (VStr tn)"
  using assms
proof (cases rule: schedule_step_cases)
  case (chosen t d cs)
  then show ?thesis
    by (cases "hd (py_sorted (\<lambda>x. (cand_finish x, cand_price x)) cs)") (simp add: resolved_def)
qed (simp_all add: not_found_def no_lab_def)

lemma schedule_step_unresolved:
  assumes "schedule_step season deadline labs tests day tn = Inr (a, day')"
    and "\<not> is_resolved a"
  shows "day' = day"
  using assms(1)
proof (cases rule: schedule_step_cases)
  case (chosen t d cs)
  with assms(2) show ?thesis
    by (simp add: resolved_is_resolved)
qed simp_all

lemma schedule_step_absent:
  assumes "schedule_step season deadline labs tests day tn = Inr (a, day')"
    and "find_test tests tn = None"
  shows "a = not_found tn \<and> day' = day"
  using assms by (simp add: schedule_step_def)

lemma schedule_step_resolved:
  assumes "schedule_step season deadline labs tests day tn = Inr (a, day')"
    and "is_resolved a"
  shows "\<exists>t l d ta. find_test tests tn = Some t \<and> l \<in> set labs
           \<and> passes_filter tn season (get_str '''' (required_storage_condition t)) l
           \<and> get_int 1 (duration_days t) = Inr d \<and> get_int 0 (turnaround_days l) = Inr ta
           \<and> a = resolved tn (lab_id l, name l, day, day + (d + ta),
                               deadline - (day + (d + ta)), get_float (price_per_test l))
           \<and> day' = day + (d + ta)"
  using assms(1)
proof (cases rule: schedule_step_cases)
  case absent
  with assms(2) show ?thesis
    by (simp add: not_found_unresolved)
next
  case (nolab t d)
  with assms(2) show ?thesis
    by (simp add: no_lab_unresolved)
next
  case (chosen t d cs)
  from chosen_candidate [OF chosen(3) chosen(4)] obtain l ta where
    "l \<in> set labs" "passes_filter tn season (get_str '''' (required_storage_condition t)) l"
    "get_int 0 (turnaround_days l) = Inr ta"
    "hd (py_sorted (\<lambda>x. (cand_finish x, cand_price x)) cs)
       = (lab_id l, name l, day, day + (d + ta), deadline - (day + (d + ta)),
          get_float (price_per_test l))"
    by blast
  with chosen(1,2,5,6) show ?thesis
    by (auto simp: cand_finish_def)
qed

lemma schedule_trace_nth:
  assumes "schedule_trace c labs tests = Inr tr" and "i < length tr"
  shows "\<exists>day'. schedule_step (contract_season c) (contract_deadline c) labs tests
                   (fst (tr ! i)) (required_names c ! i) = Inr (snd (tr ! i), day')
           \<and> (Suc i < length tr \<longrightarrow> fst (tr ! Suc i) = day')"
  using schedule_loop_nth [OF schedule_trace_loop [OF assms(1)] assms(2)] .

lemma schedule_trace_length:
  "schedule_trace c labs tests = Inr tr \<Longrightarrow> length tr = length (required_names c)"
  using schedule_loop_length [OF schedule_trace_loop] .

lemma late_winter_trace_run:
  "schedule_trace late_winter_contract winter_labs sample_tests = Inr late_winter_trace"
  by code_simp

lemma example_schedule_run:
  "schedule_for_contract example_contract sample_labs sample_tests = Inr (map snd example_trace)"
  using example_trace_run by (simp add: schedule_for_contract_trace)

lemma late_winter_schedule_run:
  "schedule_for_contract late_winter_contract winter_labs sample_tests = Inr (map snd late_winter_trace)"
  using late_winter_trace_run by (simp add: schedule_for_contract_trace)

subsection \<open>The month of a date\<close>

lemma month_of_range: "1 \<le> month_of d \<and> month_of d \<le> 12"
proof -
  define n where "n = (((d - 1) mod 146097) mod 36524) mod 1461 mod 365"
  define m where "m = (n + 50) div 32"
  have n: "0 \<le> n" "n < 365"
    by (simp_all add: n_def)
  then have m: "1 \<le> m" "m \<le> 12"
    by (simp_all add: m_def)
  have first: "days_before_month ! nat m = 0" if "m = 1"
    using that by (simp add: days_before_month_def)
  have "1 \<le> (if n < days_before_month ! nat m + (if 2 < m \<and> b then 1 else 0) then m - 1 else m)
        \<and> (if n < days_before_month ! nat m + (if 2 < m \<and> b then 1 else 0) then m - 1 else m) \<le> 12" for b
  proof (cases "m = 1")
    case True
    with first n show ?thesis by simp
  next
    case False
    with m show ?thesis by auto
  qed
  then show ?thesis
    unfolding month_of_def Let_def n_def [symmetric] m_def [symmetric]
    by simp
qed

subsection \<open>The scheduler returns on bounded inputs\<close>

lemma candidates_loop_returns:
  assumes "list_all (\<lambda>l. case get_int 0 (turnaround_days l) of Inl e \<Rightarrow> False | Inr ta \<Rightarrow> 0 \<le> ta \<and> ta \<le> b) labs"
    and "0 \<le> d" "d \<le> b" "2 * b \<le> 999999999" "1 \<le> day" "day + 2 * b \<le> max_ordinal"
  shows "\<exists>cs. candidates_loop tn season req d day deadline labs = Inr cs"
  using assms(1)
proof (induction labs)
  case Nil
  then show ?case by simp
next
  case (Cons l labs)
  then obtain ta where ta: "get_int 0 (turnaround_days l) = Inr ta" "0 \<le> ta" "ta \<le> b"
    by (auto split: sum.splits)
  with assms(2-) have add: "date_add day (d + ta) = Inr (day + (d + ta))"
    by (simp add: date_add_def)
  from Cons obtain cs where "candidates_loop tn season req d day deadline labs = Inr cs"
    by auto
  with ta(1) add show ?case
    by (simp add: Let_def bind_err_def)
qed

lemma schedule_step_returns:
  assumes "days_within b labs tests" "2 * b \<le> 999999999" "1 \<le> day" "day + 2 * b \<le> max_ordinal"
    and b: "0 \<le> b"
  shows "\<exists>a day'. schedule_step season deadline labs tests day tn = Inr (a, day')
            \<and> day \<le> day' \<and> day' \<le> day + 2 * b"
proof (cases "find_test tests tn")
  case None
  with assms show ?thesis
    by (auto simp: schedule_step_def days_within_def split: sum.splits) 
next
  case (Some t)
  then have t: "t \<in> set tests" "str_lower (test_name t) = str_lower tn"
    by (simp_all add: find_test_Some)
  with assms(1) have "case get_int 1 (duration_days t) of Inl e \<Rightarrow> False | Inr d \<Rightarrow> 0 \<le> d \<and> d \<le> b"
    by (simp add: days_within_def list_all_iff)
  then obtain d where d: "get_int 1 (duration_days t) = Inr d" "0 \<le> d" "d \<le> b"
    by (cases "get_int 1 (duration_days t)") auto
  from assms(1) have labs: "list_all (\<lambda>l. case get_int 0 (turnaround_days l) of Inl e \<Rightarrow> False | Inr ta \<Rightarrow> 0 \<le> ta \<and> ta \<le> b) labs"
    by (simp add: days_within_def)
  from candidates_loop_returns [OF labs d(2,3) assms(2-4)] obtain cs where
    cs: "candidates_loop tn season (get_str '''' (required_storage_condition t)) d day deadline labs = Inr cs"
    by blast
  show ?thesis
  proof (cases "cs = []")
    case True
    with Some d(1) cs b show ?thesis
      by (simp add: schedule_step_def bind_err_def)
  next
    case False
    from chosen_candidate [OF cs False] obtain l ta where
      l: "l \<in> set labs" "get_int 0 (turnaround_days l) = Inr ta"
      and ch: "hd (py_sorted (\<lambda>x. (cand_finish x, cand_price x)) cs)
               = (lab_id l, name l, day, day + (d + ta), deadline - (day + (d + ta)),
                  get_float (price_per_test l))"
      by blast
    from labs l have "0 \<le> ta" "ta \<le> b"
      by (auto simp: list_all_iff split: sum.splits)
    with d(2,3) have "day \<le> day + (d + ta)" "day + (d + ta) \<le> day + 2 * b"
      by simp_all
    with Some d(1) cs False ch show ?thesis
      by (simp add: schedule_step_def bind_err_def Let_def cand_finish_def)
  qed
qed

lemma schedule_loop_returns:
  assumes "days_within b labs tests" "2 * b \<le> 999999999" "0 \<le> b"
  shows "1 \<le> day \<Longrightarrow> day + int (length tns) * (2 * b) \<le> max_ordinal
         \<Longrightarrow> \<exists>tr. schedule_loop season deadline labs tests day tns = Inr tr"
proof (induction tns arbitrary: day)
  case Nil
  then show ?case by simp
next
  case (Cons tn tns)
  from Cons.prems(2) have room: "day + 2 * b + int (length tns) * (2 * b) \<le> max_ordinal"
    by (simp add: algebra_simps)
  moreover from assms(3) have "0 \<le> int (length tns) * (2 * b)"
    by simp
  ultimately have "day + 2 * b \<le> max_ordinal"
    by linarith
  from schedule_step_returns [OF assms(1,2) Cons.prems(1) this assms(3)] obtain a day' where
    step: "schedule_step season deadline labs tests day tn = Inr (a, day')"
    and day': "day \<le> day'" "day' \<le> day + 2 * b"
    by blast
  from day' Cons.prems(1) room have "1 \<le> day'" "day' + int (length tns) * (2 * b) \<le> max_ordinal"
    by simp_all
  from Cons.IH [OF this] obtain rest where "schedule_loop season deadline labs tests day' tns = Inr rest"
    by blast
  with step show ?case
    by (simp add: bind_err_def)
qed

text \<open>
  On inputs within a bound the scheduler raises no error and returns a schedule; the
  sample tables of the program are such inputs.
\<close>

lemma schedule_for_contract_returns:
  assumes "within_bounds b c labs tests"
  shows "\<exists>sch. schedule_for_contract c labs tests = Inr sch"
proof -
  from assms(1) obtain ms where ms: "get_int 30 (max_storage_days c) = Inr ms"
    by (cases "max_storage_days c") (auto simp: within_bounds_def get_int_def)
  from assms have "\<exists>tr. schedule_loop (months_to_season (month_of (sample_collection_date c)))
      (contract_deadline c) labs tests (sample_collection_date c) (required_names c) = Inr tr"
    by (intro schedule_loop_returns [where b = b]) (simp_all add: within_bounds_def)
  with ms show ?thesis
    by (auto simp: schedule_for_contract_def schedule_trace_def bind_err_def Let_def)
qed

lemma sample_within_bounds: "within_bounds 14 sample_contract sample_labs sample_tests"
  by code_simp

subsection \<open>The summaries of the example runs\<close>

lemma summary_of_example_run:
  "total_cost (map snd example_trace) = 240 \<and> missed (map snd example_trace) = 0"
  by code_simp

lemma summary_of_late_winter_run:
  "total_cost (map snd late_winter_trace) = 90 \<and> missed (map snd late_winter_trace) = 1"
  by code_simp

subsection \<open>The helper that is never called\<close>

text \<open>
  \<^verbatim>\<open>parse_list_field\<close> is defined by the program and called nowhere.  It gives no
  token for an empty cell, and it cuts at commas only.
\<close>

lemma parse_list_field_commas_only:
  "parse_list_field (Text ''A;b, c'') = [''A;b'', ''c''] \<and> parse_list_field Missing = []"
  by code_simp

section \<open>The summary\<close>

text \<open>
  Claim C6.  For every schedule, the total cost is the sum of the price field over the
  assignments whose status is "scheduled" and over no others (a resolved assignment that
  will miss the deadline adds nothing), and the count of missed tests is the number of
  assignments whose status is "will miss deadline".  Status and price are read from the
  dicts of the schedule; the price of an assignment is the number under its key
  \<^verbatim>\<open>price\<close>, and an assignment that has no number there adds nothing.
\<close>

theorem summary_totals:
  "total_cost sch
     = (\<Sum>i \<in> {i. i < length sch \<and> map_of (sch ! i) ''status'' = Some (VStr ''scheduled'')}.
          case map_of (sch ! i) ''price'' of Some (VFloat (FNum p)) \<Rightarrow> p | _ \<Rightarrow> 0)
   \<and> missed sch
     = card {i. i < length sch \<and> map_of (sch ! i) ''status'' = Some (VStr ''will miss deadline'')}"
proof
  let ?amount = "\<lambda>a. case map_of a ''price'' of Some (VFloat (FNum p)) \<Rightarrow> p | _ \<Rightarrow> 0"
  let ?S = "{i. i < length sch \<and> map_of (sch ! i) ''status'' = Some (VStr ''scheduled'')}"
  show "total_cost sch = (\<Sum>i \<in> ?S. ?amount (sch ! i))"
  proof (cases "''price'' \<in> set (columns sch)")
    case True
    then have "total_cost sch = sum_list (map ?amount (filter (status_is ''scheduled'') sch))"
      by (simp add: total_cost_def sum_skipna_column)
    also have "\<dots> = (\<Sum>i \<in> {i. i < length sch \<and> status_is ''scheduled'' (sch ! i)}. ?amount (sch ! i))"
      by (rule sum_list_filter_indices)
    finally show ?thesis
      by (simp add: status_is_def)
  next
    case False
    have "?amount (sch ! i) = 0" if "i < length sch" for i
      using no_column_no_key [OF False, of "sch ! i"] that by simp
    then have "(\<Sum>i \<in> ?S. ?amount (sch ! i)) = 0"
      by (intro sum.neutral) simp
    with False show ?thesis
      by (simp add: total_cost_def)
  qed
next
  let ?M = "{i. i < length sch \<and> map_of (sch ! i) ''status'' = Some (VStr ''will miss deadline'')}"
  show "missed sch = card ?M"
  proof (cases "''status'' \<in> set (columns sch)")
    case True
    then show ?thesis
      by (simp add: missed_def length_filter_conv_card status_is_def)
  next
    case False
    have "map_of (sch ! i) ''status'' = None" if "i < length sch" for i
      using no_column_no_key [OF False, of "sch ! i"] that by simp
    then have "?M = {}"
      by auto
    with False show ?thesis
      by (simp add: missed_def)
  qed
qed

theorem summary_totals_witness:
  "schedule_for_contract late_winter_contract winter_labs sample_tests
     = Inr (map snd late_winter_trace)
   \<and> map (\<lambda>a. map_of a ''status'') (map snd late_winter_trace)
       = [Some (VStr ''scheduled''), Some (VStr ''will miss deadline'')]
   \<and> map (\<lambda>a. map_of a ''price'') (map snd late_winter_trace)
       = [Some (VFloat (FNum 90)), Some (VFloat (FNum 90))]
   \<and> total_cost (map snd late_winter_trace) = 90
   \<and> missed (map snd late_winter_trace) = 1"
proof -
  define sch where "sch = map snd late_winter_trace"
  have st: "map (\<lambda>a. map_of a ''status'') sch
       = [Some (VStr ''scheduled''), Some (VStr ''will miss deadline'')]"
    by (simp add: sch_def late_winter_trace_def resolved_fields)
  have pr: "map (\<lambda>a. map_of a ''price'') sch
       = [Some (VFloat (FNum 90)), Some (VFloat (FNum 90))]"
    by (simp add: sch_def late_winter_trace_def resolved_fields)
  have len: "length sch = 2"
    by (simp add: sch_def late_winter_trace_def)
  have s0: "map_of (sch ! 0) ''status'' = Some (VStr ''scheduled'')"
    by (simp add: sch_def late_winter_trace_def resolved_fields)
  have s1: "map_of (sch ! 1) ''status'' = Some (VStr ''will miss deadline'')"
    by (simp add: sch_def late_winter_trace_def resolved_fields)
  have p0: "map_of (sch ! 0) ''price'' = Some (VFloat (FNum 90))"
    by (simp add: sch_def late_winter_trace_def resolved_fields)
  have two: "i = 0 \<or> i = 1" if "i < length sch" for i
    using that len by auto
  have differ: "VStr ''scheduled'' \<noteq> VStr ''will miss deadline''"
    by simp
  have S: "{i. i < length sch \<and> map_of (sch ! i) ''status'' = Some (VStr ''scheduled'')} = {0}"
  proof (rule set_eqI)
    fix i
    show "i \<in> {i. i < length sch \<and> map_of (sch ! i) ''status'' = Some (VStr ''scheduled'')}
          \<longleftrightarrow> i \<in> {0}"
    proof
      assume "i \<in> {i. i < length sch \<and> map_of (sch ! i) ''status'' = Some (VStr ''scheduled'')}"
      then have i: "i < length sch" and sti: "map_of (sch ! i) ''status'' = Some (VStr ''scheduled'')"
        by blast+
      from two [OF i] show "i \<in> {0}"
      proof
        assume "i = 1"
        with sti s1 differ show ?thesis by simp
      qed simp
    next
      assume "i \<in> {0}"
      then have "i = 0" by simp
      with s0 len show "i \<in> {i. i < length sch \<and> map_of (sch ! i) ''status'' = Some (VStr ''scheduled'')}"
        by simp
    qed
  qed
  have M: "{i. i < length sch \<and> map_of (sch ! i) ''status'' = Some (VStr ''will miss deadline'')} = {1}"
  proof (rule set_eqI)
    fix i
    show "i \<in> {i. i < length sch \<and> map_of (sch ! i) ''status'' = Some (VStr ''will miss deadline'')}
          \<longleftrightarrow> i \<in> {1}"
    proof
      assume "i \<in> {i. i < length sch \<and> map_of (sch ! i) ''status'' = Some (VStr ''will miss deadline'')}"
      then have i: "i < length sch"
        and sti: "map_of (sch ! i) ''status'' = Some (VStr ''will miss deadline'')"
        by blast+
      from two [OF i] show "i \<in> {1}"
      proof
        assume "i = 0"
        with sti s0 differ show ?thesis by simp
      qed simp
    next
      assume "i \<in> {1}"
      then have "i = 1" by simp
      with s1 len show "i \<in> {i. i < length sch \<and> map_of (sch ! i) ''status'' = Some (VStr ''will miss deadline'')}"
        by simp
    qed
  qed
  from summary_totals [of sch] have "total_cost sch = 90" and "missed sch = 1"
    unfolding S M using p0 by simp_all
  with late_winter_schedule_run st pr show ?thesis
    unfolding sch_def by simp
qed

section \<open>The field list parser\<close>

text \<open>
  Claim C10 says that every one of the four text fields is split into trimmed,
  case-normalised tokens.  The required tests of the sample contract are not: the names
  keep the case in which the contract writes them.
\<close>

theorem required_names_keep_case:
  "required_names sample_contract = [''Residue'', ''Purity'']
   \<and> set (required_names sample_contract) \<noteq> spec_field_set ''Residue;Purity''"
  by code_simp

text \<open>
  Claim C10, amended.  A text of supported_tests, seasons_allowed or
  storage_conditions_accepted is cut at every comma and semicolon into its trimmed,
  non-empty, lower-cased pieces, whose set is the specification's token set.  The text of
  required_tests is cut in the same way into its trimmed, non-empty pieces, which keep
  their case, their order and their repetitions; lower-casing them gives the tokens of
  the other parser.  The empty text has no token under either.
\<close>

theorem field_tokens:
  "name_tokens s = filter (\<lambda>p. p \<noteq> []) (map str_strip (split_any is_separator s))
   \<and> lower_tokens s = map str_lower (name_tokens s)
   \<and> set (lower_tokens s) = spec_field_set s
   \<and> name_tokens [] = [] \<and> lower_tokens [] = []"
proof -
  have "name_tokens s = filter (\<lambda>p. p \<noteq> []) (map str_strip (split_any is_separator s))"
    using name_tokens_pieces [of s] by (simp add: spec_pieces_def)
  moreover have "name_tokens [] = []"
    by (simp add: name_tokens_def str_replace_def str_strip_def)
  moreover have "lower_tokens [] = []"
    by (simp add: lower_tokens_def str_replace_def str_strip_def)
  moreover note lower_tokens_name [of s] set_lower_tokens [of s]
  ultimately show ?thesis
    by blast
qed

section \<open>The constraint filter\<close>

text \<open>
  On rows whose cells are filled the loop over the labs keeps a lab exactly when the three
  conditions of the specification hold, and the candidates of a run that returns are the
  eligible labs in the order of the table.
\<close>

lemma eligible_when_cells_filled:
  assumes "find_test tests tn = Some t" and "cells_filled t l"
  shows "(candidates_loop tn season (get_str '''' (required_storage_condition t)) d day deadline [l]
            \<noteq> Inr []) = Eligible t l season"
proof -
  from assms(1) have "str_lower (test_name t) = str_lower tn"
    by (simp add: find_test_Some)
  from passes_filter_Eligible [OF this assms(2)] show ?thesis
    by (simp only: candidates_loop_single)
qed

lemma candidates_when_cells_filled:
  assumes "find_test tests tn = Some t" and "list_all (cells_filled t) labs"
    and "candidates_loop tn season (get_str '''' (required_storage_condition t)) d day deadline labs
           = Inr cs"
  shows "map (\<lambda>c. (fst c, fst (snd c))) cs
           = map (\<lambda>l. (lab_id l, name l)) (filter (\<lambda>l. Eligible t l season) labs)"
proof -
  from assms(1) have low: "str_lower (test_name t) = str_lower tn"
    by (simp add: find_test_Some)
  have "filter (passes_filter tn season (get_str '''' (required_storage_condition t))) labs
          = filter (\<lambda>l. Eligible t l season) labs"
    using assms(2) passes_filter_Eligible [OF low]
    by (intro filter_cong) (auto simp: list_all_iff)
  with candidates_loop_Inr [OF assms(3)]
  have "list_all2 (\<lambda>c l. \<exists>ta. get_int 0 (turnaround_days l) = Inr ta
            \<and> date_add day (d + ta) = Inr (day + (d + ta))
            \<and> c = (lab_id l, name l, day, day + (d + ta), deadline - (day + (d + ta)),
                   get_float (price_per_test l)))
          cs (filter (\<lambda>l. Eligible t l season) labs)"
    by simp
  then show ?thesis
    by (induction rule: list_all2_induct) auto
qed

text \<open>
  Claim C1.  A lab is eligible for a test exactly when the three conditions of the
  specification hold: its supported tests contain the test's name up to case, its seasons
  contain "all" or the season, and the test's storage condition is empty or is, up to
  case, one of the lab's storage tokens.  The program breaks the third condition on an
  empty cell.  A test whose storage condition cell is empty has no storage constraint,
  and both sample labs are eligible for it in summer; the program reads the text "nan"
  from the empty cell, finds it among the storage tokens of no lab, keeps no candidate,
  and the schedule says that no suitable lab was found.
\<close>

theorem blank_storage_cell_excludes_labs:
  "find_test blank_storage_tests ''Residue'' = Some (hd blank_storage_tests)
   \<and> required_storage_condition (hd blank_storage_tests) = NaN
   \<and> Eligible (hd blank_storage_tests) (sample_labs ! 0) ''summer''
   \<and> Eligible (hd blank_storage_tests) (sample_labs ! 1) ''summer''
   \<and> candidates_loop ''Residue'' ''summer''
        (get_str '''' (required_storage_condition (hd blank_storage_tests)))
        3 739077 739090 sample_labs = Inr []
   \<and> schedule_for_contract summer_contract sample_labs blank_storage_tests
       = Inr [no_lab ''Residue'']"
proof -
  have "find_test blank_storage_tests ''Residue'' = Some (hd blank_storage_tests)"
    by code_simp
  moreover have "required_storage_condition (hd blank_storage_tests) = NaN"
    by (simp add: blank_storage_tests_def)
  moreover have "Eligible (hd blank_storage_tests) (sample_labs ! 0) ''summer''"
    by code_simp
  moreover have "Eligible (hd blank_storage_tests) (sample_labs ! 1) ''summer''"
    by code_simp
  moreover have "candidates_loop ''Residue'' ''summer''
        (get_str '''' (required_storage_condition (hd blank_storage_tests)))
        3 739077 739090 sample_labs = Inr []"
    by code_simp
  moreover have "schedule_for_contract summer_contract sample_labs blank_storage_tests
       = Inr [no_lab ''Residue'']"
    by code_simp
  ultimately show ?thesis
    by blast
qed

section \<open>The candidate ranker\<close>

text \<open>
  Claim C2.  When a test has at least one eligible lab, the lab that is chosen finishes no
  later than any eligible lab and costs no more than any eligible lab that finishes on
  the same day.  The program breaks this when a lab has no price.  Of three labs that
  are all eligible and finish on the same day, priced 100, not priced and 50 in the order
  of the table, all three become candidates and the first is chosen, at the price 100,
  though the third costs 50: the key of the lab without a price is less than no key and
  no key is less than it, so the sort takes the list to be in order as it stands.
\<close>

theorem unpriced_lab_breaks_tie_break:
  "find_test sample_tests ''Residue'' = Some (hd sample_tests)
   \<and> candidates_loop ''Residue'' ''winter'' (get_str '''' (required_storage_condition (hd sample_tests)))
        3 738895 738925 unpriced_labs
       = Inr [(1, ''Lab P'', 738895, 738905, 20, FNum 100),
              (2, ''Lab Q'', 738895, 738905, 20, FNaN),
              (3, ''Lab R'', 738895, 738905, 20, FNum 50)]
   \<and> schedule_step ''winter'' 738925 unpriced_labs sample_tests 738895 ''Residue''
       = Inr (resolved ''Residue'' (1, ''Lab P'', 738895, 738905, 20, FNum 100), 738905)
   \<and> Eligible (hd sample_tests) (unpriced_labs ! 0) ''winter''
   \<and> Eligible (hd sample_tests) (unpriced_labs ! 2) ''winter''
   \<and> price_per_test (unpriced_labs ! 0) = Val 100
   \<and> price_per_test (unpriced_labs ! 2) = Val 50"
proof -
  have "find_test sample_tests ''Residue'' = Some (hd sample_tests)"
    by code_simp
  moreover have "candidates_loop ''Residue'' ''winter'' (get_str '''' (required_storage_condition (hd sample_tests)))
        3 738895 738925 unpriced_labs
       = Inr [(1, ''Lab P'', 738895, 738905, 20, FNum 100),
              (2, ''Lab Q'', 738895, 738905, 20, FNaN),
              (3, ''Lab R'', 738895, 738905, 20, FNum 50)]"
    by code_simp
  moreover have "schedule_step ''winter'' 738925 unpriced_labs sample_tests 738895 ''Residue''
       = Inr (resolved ''Residue'' (1, ''Lab P'', 738895, 738905, 20, FNum 100), 738905)"
    by code_simp
  moreover have "Eligible (hd sample_tests) (unpriced_labs ! 0) ''winter''"
    by code_simp
  moreover have "Eligible (hd sample_tests) (unpriced_labs ! 2) ''winter''"
    by code_simp
  moreover have "price_per_test (unpriced_labs ! 0) = Val 100"
    by (simp add: unpriced_labs_def)
  moreover have "price_per_test (unpriced_labs ! 2) = Val 50"
    by (simp add: unpriced_labs_def)
  ultimately show ?thesis
    by blast
qed

section \<open>The sequential scheduler\<close>

text \<open>
  Claim C3.  Take two consecutive entries of a run.  If the first resolved to a lab, its
  finish date is the timeline value of the second; if it did not (the test was not found,
  or no lab was suitable), the timeline value of the second is that of the first.  The
  start date of a resolved assignment is its timeline value, so that of two consecutive
  resolved assignments the second starts on the finish date of the first.
\<close>

theorem timeline_chaining:
  assumes "schedule_trace c labs tests = Inr tr" and "Suc i < length tr"
  shows "schedule_for_contract c labs tests = Inr (map snd tr)
     \<and> (is_resolved (snd (tr ! i)) \<longrightarrow>
          map_of (snd (tr ! i)) ''finish_date'' = Some (VDate (fst (tr ! Suc i))))
     \<and> (\<not> is_resolved (snd (tr ! i)) \<longrightarrow> fst (tr ! Suc i) = fst (tr ! i))
     \<and> (is_resolved (snd (tr ! Suc i)) \<longrightarrow>
          map_of (snd (tr ! Suc i)) ''start_date'' = Some (VDate (fst (tr ! Suc i))))
     \<and> (is_resolved (snd (tr ! i)) \<and> is_resolved (snd (tr ! Suc i)) \<longrightarrow>
          map_of (snd (tr ! Suc i)) ''start_date'' = map_of (snd (tr ! i)) ''finish_date'')"
proof -
  have sch: "schedule_for_contract c labs tests = Inr (map snd tr)"
    using assms(1) by (simp add: schedule_for_contract_trace)
  from assms(2) have i: "i < length tr" by simp
  from schedule_trace_nth [OF assms(1) i] assms(2) obtain day' where
    step: "schedule_step (contract_season c) (contract_deadline c) labs tests
             (fst (tr ! i)) (required_names c ! i) = Inr (snd (tr ! i), day')"
    and next_day: "fst (tr ! Suc i) = day'"
    by blast
  from schedule_trace_nth [OF assms(1) assms(2)] obtain day'' where
    step': "schedule_step (contract_season c) (contract_deadline c) labs tests
             (fst (tr ! Suc i)) (required_names c ! Suc i) = Inr (snd (tr ! Suc i), day'')"
    by blast
  have fin: "map_of (snd (tr ! i)) ''finish_date'' = Some (VDate (fst (tr ! Suc i)))"
    if "is_resolved (snd (tr ! i))"
    using schedule_step_resolved [OF step that] next_day
    by (auto simp: resolved_fields)
  have unch: "fst (tr ! Suc i) = fst (tr ! i)" if "\<not> is_resolved (snd (tr ! i))"
    using schedule_step_unresolved [OF step that] next_day by simp
  have start: "map_of (snd (tr ! Suc i)) ''start_date'' = Some (VDate (fst (tr ! Suc i)))"
    if "is_resolved (snd (tr ! Suc i))"
    using schedule_step_resolved [OF step' that]
    by (auto simp: resolved_fields)
  from sch fin unch start show ?thesis
    by simp
qed

theorem timeline_chaining_witness:
  "schedule_trace example_contract sample_labs sample_tests = Inr example_trace
   \<and> Suc 0 < length example_trace \<and> Suc 1 < length example_trace
   \<and> is_resolved (snd (example_trace ! 0))
   \<and> map_of (snd (example_trace ! 0)) ''finish_date'' = Some (VDate (fst (example_trace ! 1)))
   \<and> \<not> is_resolved (snd (example_trace ! 1))
   \<and> fst (example_trace ! 2) = fst (example_trace ! 1)
   \<and> is_resolved (snd (example_trace ! 2))
   \<and> map_of (snd (example_trace ! 2)) ''start_date'' = Some (VDate (fst (example_trace ! 2)))"
proof -
  have len: "Suc 0 < length example_trace" "Suc 1 < length example_trace"
    by (simp_all add: example_trace_def)
  have r0: "is_resolved (snd (example_trace ! 0))"
    by (simp add: example_trace_def resolved_is_resolved)
  have r1: "\<not> is_resolved (snd (example_trace ! 1))"
    by (simp add: example_trace_def not_found_unresolved)
  have r2: "is_resolved (snd (example_trace ! 2))"
    by (simp add: example_trace_def resolved_is_resolved)
  from timeline_chaining [OF example_trace_run len(1)] timeline_chaining [OF example_trace_run len(2)]
    example_trace_run len r0 r1 r2
  show ?thesis
    by (simp add: numeral_2_eq_2)
qed

text \<open>
  Claim C4.  Every assignment that resolved to a lab names a lab of the table, and its
  finish date is its start date plus the duration of the test plus the turnaround of that
  lab, in days.
\<close>

theorem finish_date_sum:
  assumes "schedule_for_contract c labs tests = Inr sch" and "i < length sch"
    and "is_resolved (sch ! i)"
  shows "\<exists>t l d ta s. find_test tests (required_names c ! i) = Some t \<and> l \<in> set labs
           \<and> get_int 1 (duration_days t) = Inr d \<and> get_int 0 (turnaround_days l) = Inr ta
           \<and> map_of (sch ! i) ''lab_id'' = Some (VInt (lab_id l))
           \<and> map_of (sch ! i) ''lab_name'' = Some (VStr (name l))
           \<and> map_of (sch ! i) ''start_date'' = Some (VDate s)
           \<and> map_of (sch ! i) ''finish_date'' = Some (VDate (s + d + ta))"
proof -
  from assms(1) obtain tr where tr: "schedule_trace c labs tests = Inr tr" and sch: "sch = map snd tr"
    by (auto simp: schedule_for_contract_trace)
  from assms(2) sch have i: "i < length tr" by simp
  from schedule_trace_nth [OF tr i] obtain day' where
    step: "schedule_step (contract_season c) (contract_deadline c) labs tests
             (fst (tr ! i)) (required_names c ! i) = Inr (snd (tr ! i), day')"
    by blast
  from assms(3) sch i have "is_resolved (snd (tr ! i))" by simp
  from schedule_step_resolved [OF step this] obtain t l d ta where
    "find_test tests (required_names c ! i) = Some t" "l \<in> set labs"
    "get_int 1 (duration_days t) = Inr d" "get_int 0 (turnaround_days l) = Inr ta"
    "snd (tr ! i) = resolved (required_names c ! i)
        (lab_id l, name l, fst (tr ! i), fst (tr ! i) + (d + ta),
         contract_deadline c - (fst (tr ! i) + (d + ta)), get_float (price_per_test l))"
    by blast
  moreover have "fst (tr ! i) + (d + ta) = fst (tr ! i) + d + ta" by simp
  ultimately show ?thesis
    using sch i by (auto simp: resolved_fields)
qed

theorem finish_date_sum_witness:
  "schedule_for_contract example_contract sample_labs sample_tests = Inr (map snd example_trace)
   \<and> 2 < length (map snd example_trace)
   \<and> is_resolved (map snd example_trace ! 2)
   \<and> (\<exists>t l d ta s. find_test sample_tests (required_names example_contract ! 2) = Some t
           \<and> l \<in> set sample_labs
           \<and> get_int 1 (duration_days t) = Inr d \<and> get_int 0 (turnaround_days l) = Inr ta
           \<and> map_of (map snd example_trace ! 2) ''lab_id'' = Some (VInt (lab_id l))
           \<and> map_of (map snd example_trace ! 2) ''lab_name'' = Some (VStr (name l))
           \<and> map_of (map snd example_trace ! 2) ''start_date'' = Some (VDate s)
           \<and> map_of (map snd example_trace ! 2) ''finish_date'' = Some (VDate (s + d + ta)))"
proof -
  have len: "2 < length (map snd example_trace)"
    by (simp add: example_trace_def)
  have res: "is_resolved (map snd example_trace ! 2)"
    by (simp add: example_trace_def resolved_is_resolved)
  from finish_date_sum [OF example_schedule_run len res] example_schedule_run len res
  show ?thesis
    by blast
qed

text \<open>
  Claim C5.  For every assignment that resolved to a lab, the days before the deadline are
  the contract's deadline minus the finish date, and the status is "scheduled" when that
  number is not negative and "will miss deadline" otherwise.
\<close>

theorem deadline_status:
  assumes "schedule_for_contract c labs tests = Inr sch" and "a \<in> set sch" and "is_resolved a"
  shows "\<exists>f. map_of a ''finish_date'' = Some (VDate f)
           \<and> map_of a ''days_before_deadline'' = Some (VInt (contract_deadline c - f))
           \<and> map_of a ''status''
               = Some (VStr (if 0 \<le> contract_deadline c - f then ''scheduled''
                             else ''will miss deadline''))"
proof -
  from assms(1) obtain tr where tr: "schedule_trace c labs tests = Inr tr" and sch: "sch = map snd tr"
    by (auto simp: schedule_for_contract_trace)
  from assms(2) sch obtain i where i: "i < length tr" and a: "a = snd (tr ! i)"
    by (auto simp: in_set_conv_nth)
  from schedule_trace_nth [OF tr i] obtain day' where
    step: "schedule_step (contract_season c) (contract_deadline c) labs tests
             (fst (tr ! i)) (required_names c ! i) = Inr (a, day')"
    unfolding a by blast
  from schedule_step_resolved [OF step assms(3)] show ?thesis
    by (auto simp: resolved_fields)
qed

theorem deadline_status_witness:
  "schedule_for_contract late_winter_contract winter_labs sample_tests = Inr (map snd late_winter_trace)
   \<and> snd (late_winter_trace ! 1) \<in> set (map snd late_winter_trace)
   \<and> is_resolved (snd (late_winter_trace ! 1))
   \<and> (\<exists>f. map_of (snd (late_winter_trace ! 1)) ''finish_date'' = Some (VDate f)
           \<and> map_of (snd (late_winter_trace ! 1)) ''days_before_deadline''
               = Some (VInt (contract_deadline late_winter_contract - f))
           \<and> map_of (snd (late_winter_trace ! 1)) ''status''
               = Some (VStr (if 0 \<le> contract_deadline late_winter_contract - f then ''scheduled''
                             else ''will miss deadline'')))
   \<and> map_of (snd (late_winter_trace ! 1)) ''status'' = Some (VStr ''will miss deadline'')"
proof -
  have mem: "snd (late_winter_trace ! 1) \<in> set (map snd late_winter_trace)"
    by (simp add: late_winter_trace_def)
  have res: "is_resolved (snd (late_winter_trace ! 1))"
    by (simp add: late_winter_trace_def resolved_is_resolved)
  have st: "map_of (snd (late_winter_trace ! 1)) ''status'' = Some (VStr ''will miss deadline'')"
    by (simp add: late_winter_trace_def resolved_fields)
  from deadline_status [OF late_winter_schedule_run mem res] late_winter_schedule_run mem res st
  show ?thesis
    by blast
qed

text \<open>
  Claim C7.  The schedule that is returned has one assignment for each required test name,
  in the order of the names, whatever became of the test.
\<close>

theorem one_assignment_per_name:
  assumes "schedule_for_contract c labs tests = Inr sch"
  shows "length sch = length (required_names c)
         \<and> map (\<lambda>a. map_of a ''test_name'') sch = map (\<lambda>tn. Some (VStr tn)) (required_names c)"
proof -
  from assms obtain tr where tr: "schedule_trace c labs tests = Inr tr" and sch: "sch = map snd tr"
    by (auto simp: schedule_for_contract_trace)
  have len: "length sch = length (required_names c)"
    using schedule_trace_length [OF tr] sch by simp
  have "map_of (sch ! i) ''test_name'' = Some (VStr (required_names c ! i))" if "i < length sch" for i
  proof -
    from that sch have i: "i < length tr" by simp
    from schedule_trace_nth [OF tr i] obtain day' where
      "schedule_step (contract_season c) (contract_deadline c) labs tests
             (fst (tr ! i)) (required_names c ! i) = Inr (snd (tr ! i), day')"
      by blast
    from schedule_step_test_name [OF this] sch i show ?thesis by simp
  qed
  with len have "map (\<lambda>a. map_of a ''test_name'') sch = map (\<lambda>tn. Some (VStr tn)) (required_names c)"
    by (simp add: list_eq_iff_nth_eq)
  with len show ?thesis by simp
qed

theorem one_assignment_per_name_witness:
  "schedule_for_contract example_contract sample_labs sample_tests = Inr (map snd example_trace)
   \<and> required_names example_contract = [''Residue'', ''Nope'', ''residue'']
   \<and> length (map snd example_trace) = 3
   \<and> map (\<lambda>a. map_of a ''test_name'') (map snd example_trace)
       = [Some (VStr ''Residue''), Some (VStr ''Nope''), Some (VStr ''residue'')]"
proof -
  have names: "required_names example_contract = [''Residue'', ''Nope'', ''residue'']"
    by code_simp
  from one_assignment_per_name [OF example_schedule_run] example_schedule_run names
  show ?thesis
    by simp
qed

text \<open>
  Claim C8 says that a required name that is not in the table of tests gets the status
  "test not found".  The status that the program writes is a longer text.
\<close>

theorem absent_test_status_text:
  "schedule_for_contract example_contract sample_labs sample_tests = Inr (map snd example_trace)
   \<and> required_names example_contract ! 1 = ''Nope''
   \<and> find_test sample_tests ''Nope'' = None
   \<and> map_of (map snd example_trace ! 1) ''status'' = Some (VStr ''test not found in tests.xlsx'')
   \<and> \<not> status_is ''test not found'' (map snd example_trace ! 1)"
proof -
  have "required_names example_contract ! 1 = ''Nope''"
    by code_simp
  moreover have "find_test sample_tests ''Nope'' = None"
    by code_simp
  moreover have "map_of (map snd example_trace ! 1) ''status'' = Some (VStr ''test not found in tests.xlsx'')"
    by (simp add: example_trace_def not_found_def)
  moreover have "\<not> status_is ''test not found'' (map snd example_trace ! 1)"
    by (simp add: example_trace_def not_found_def status_is_def)
  ultimately show ?thesis
    using example_schedule_run by blast
qed

text \<open>
  Claim C8, amended.  When no row of the table of tests has the required name up to case,
  the assignment holds the name and the status "test not found in tests.xlsx" and nothing
  else (no lab, price or date), the timeline value of the next entry is unchanged, and
  the run has an entry for every required name.
\<close>

theorem absent_test_not_found:
  assumes "schedule_trace c labs tests = Inr tr" and "i < length tr"
    and "\<not> (\<exists>t \<in> set tests. eq_ignoring_case (test_name t) (required_names c ! i))"
  shows "schedule_for_contract c labs tests = Inr (map snd tr)
     \<and> length tr = length (required_names c)
     \<and> snd (tr ! i) = [(''test_name'', VStr (required_names c ! i)),
                        (''status'', VStr ''test not found in tests.xlsx'')]
     \<and> (Suc i < length tr \<longrightarrow> fst (tr ! Suc i) = fst (tr ! i))"
proof -
  have sch: "schedule_for_contract c labs tests = Inr (map snd tr)"
    using assms(1) by (simp add: schedule_for_contract_trace)
  have none: "find_test tests (required_names c ! i) = None"
    using assms(3) by (simp add: find_test_None eq_ignoring_case_def)
  from schedule_trace_nth [OF assms(1,2)] obtain day' where
    step: "schedule_step (contract_season c) (contract_deadline c) labs tests
             (fst (tr ! i)) (required_names c ! i) = Inr (snd (tr ! i), day')"
    and next_day: "Suc i < length tr \<longrightarrow> fst (tr ! Suc i) = day'"
    by blast
  from schedule_step_absent [OF step none] next_day sch schedule_trace_length [OF assms(1)]
  show ?thesis
    by (simp add: not_found_def)
qed

theorem absent_test_not_found_witness:
  "schedule_trace example_contract sample_labs sample_tests = Inr example_trace
   \<and> 1 < length example_trace
   \<and> \<not> (\<exists>t \<in> set sample_tests. eq_ignoring_case (test_name t) (required_names example_contract ! 1))
   \<and> length example_trace = length (required_names example_contract)
   \<and> snd (example_trace ! 1) = [(''test_name'', VStr (required_names example_contract ! 1)),
                        (''status'', VStr ''test not found in tests.xlsx'')]
   \<and> fst (example_trace ! 2) = fst (example_trace ! 1)"
proof -
  have len: "1 < length example_trace" "Suc 1 < length example_trace"
    by (simp_all add: example_trace_def)
  have ab: "\<not> (\<exists>t \<in> set sample_tests. eq_ignoring_case (test_name t) (required_names example_contract ! 1))"
    by code_simp
  from absent_test_not_found [OF example_trace_run len(1) ab] example_trace_run len ab
  show ?thesis
    by (simp add: numeral_2_eq_2)
qed

section \<open>The season resolver\<close>

text \<open>
  Claim C9.  The months map to the seasons in the four fixed groups, and every step of a
  run is the step for the season of the month of the contract's sample collection date,
  whatever the timeline value of the step is.
\<close>

theorem season_fixed_for_contract:
  assumes "schedule_trace c labs tests = Inr tr" and "i < length tr"
  shows "map months_to_season [1, 2, 3, 4, 5, 6, 7, 8, 9, 10, 11, 12]
           = [''winter'', ''winter'', ''spring'', ''spring'', ''spring'', ''summer'', ''summer'',
              ''summer'', ''autumn'', ''autumn'', ''autumn'', ''winter'']
     \<and> (\<exists>day'. schedule_step (months_to_season (month_of (sample_collection_date c)))
                   (contract_deadline c) labs tests (fst (tr ! i)) (required_names c ! i)
                 = Inr (snd (tr ! i), day'))"
proof -
  have "map months_to_season [1, 2, 3, 4, 5, 6, 7, 8, 9, 10, 11, 12]
           = [''winter'', ''winter'', ''spring'', ''spring'', ''spring'', ''summer'', ''summer'',
              ''summer'', ''autumn'', ''autumn'', ''autumn'', ''winter'']"
    by (simp add: months_to_season_def)
  with schedule_trace_nth [OF assms] show ?thesis
    unfolding contract_season_def by blast
qed

theorem season_fixed_for_contract_witness:
  "schedule_trace late_winter_contract winter_labs sample_tests = Inr late_winter_trace
   \<and> 1 < length late_winter_trace
   \<and> months_to_season (month_of (sample_collection_date late_winter_contract)) = ''winter''
   \<and> months_to_season (month_of (fst (late_winter_trace ! 1))) = ''spring''
   \<and> (\<exists>day'. schedule_step ''winter'' (contract_deadline late_winter_contract) winter_labs sample_tests
                 (fst (late_winter_trace ! 1)) (required_names late_winter_contract ! 1)
               = Inr (snd (late_winter_trace ! 1), day'))
   \<and> is_resolved (snd (late_winter_trace ! 1))
   \<and> schedule_step ''spring'' (contract_deadline late_winter_contract) winter_labs sample_tests
        (fst (late_winter_trace ! 1)) (required_names late_winter_contract ! 1)
       = Inr (no_lab ''Residue'', 738946)"
proof -
  have len: "1 < length late_winter_trace"
    by (simp add: late_winter_trace_def)
  have w: "months_to_season (month_of (sample_collection_date late_winter_contract)) = ''winter''"
    by code_simp
  have s: "months_to_season (month_of (fst (late_winter_trace ! 1))) = ''spring''"
    by code_simp
  have r: "is_resolved (snd (late_winter_trace ! 1))"
    by (simp add: late_winter_trace_def resolved_is_resolved)
  have n: "schedule_step ''spring'' (contract_deadline late_winter_contract) winter_labs sample_tests
        (fst (late_winter_trace ! 1)) (required_names late_winter_contract ! 1)
       = Inr (no_lab ''Residue'', 738946)"
    by code_simp
  from season_fixed_for_contract [OF late_winter_trace_run len] late_winter_trace_run len w s r n
  show ?thesis
    by simp
qed

end
